theory Spec2Isabelle
  imports Complex_Main "HOL-Library.AList"
begin

section \<open>JavaScript values\<close>

text \<open>
  The nodes and the demo brokers pass loosely typed JavaScript values around (request
  bodies, task parameters, message payloads).  They are modelled as JSON values; an
  object is the list of its own properties in insertion order.  A missing property
  (JavaScript's \<open>undefined\<close>) is \<open>None\<close>.  Numbers are reals: the values
  drawn from \<open>Math.random()\<close> are parameters of the model.
\<close>

datatype json =
    JNull
  | JBool bool
  | JNum real
  | JStr string
  | JArr "json list"
  | JObj "(string \<times> json) list"


text \<open>
  Property read \<open>v.k\<close> on a value that is present; \<open>None\<close> is \<open>undefined\<close>.
  The names that the code reads are property names of objects; none of them is
  \<open>length\<close> or an index, the properties that arrays and strings have.
\<close>

fun get :: "json \<Rightarrow> string \<Rightarrow> json option" where
  "get (JObj kvs) k = map_of kvs k"
| "get v k = None"

text \<open>Optional chaining \<open>v?.k\<close> on a value that may be \<open>undefined\<close> or \<open>null\<close>.\<close>

fun opt_get :: "json option \<Rightarrow> string \<Rightarrow> json option" where
  "opt_get None k = None"
| "opt_get (Some JNull) k = None"
| "opt_get (Some v) k = get v k"


text \<open>
  Numbers inside template strings (\<open>`${n}GB`\<close>) and the names of index properties are
  printed in decimal; the numbers printed by the nodes are integers (results of
  \<open>Math.floor\<close>).
\<close>

definition digit :: "nat \<Rightarrow> char" where
  "digit n = ''0123456789'' ! n"

function show_nat :: "nat \<Rightarrow> string" where
  "show_nat n = (if n < 10 then [digit n] else show_nat (n div 10) @ [digit (n mod 10)])"
  by pat_completeness auto
termination
  by (relation "measure id") auto


text \<open>
  Object spread \<open>{...a, ...b}\<close>: the own enumerable properties of \<open>a\<close>, then those
  of \<open>b\<close>; a key written again keeps its place and takes the later value.  The own
  enumerable properties of an object are its properties, those of an array are its
  elements under their indices, those of a string are its characters under their indices;
  \<open>null\<close>, booleans and numbers have none.

  JavaScript lists the own properties of an object with the integer-like keys first, in
  ascending order, and then the other keys in the order of their insertion.  A key is
  integer-like when it is the decimal form, without a leading zero, of an integer from 0
  to \<open>2^32 - 2\<close>.
\<close>

fun own_props :: "json \<Rightarrow> (string \<times> json) list" where
  "own_props (JObj kvs) = kvs"
| "own_props (JArr xs) = map (\<lambda>i. (show_nat i, xs ! i)) [0..<length xs]"
| "own_props (JStr s) = map (\<lambda>i. (show_nat i, JStr [s ! i])) [0..<length s]"
| "own_props v = []"

fun assign :: "(string \<times> json) list \<Rightarrow> (string \<times> json) list \<Rightarrow> (string \<times> json) list" where
  "assign acc [] = acc"
| "assign acc ((k, v) # kvs) = assign (AList.update k v acc) kvs"

definition is_digit :: "char \<Rightarrow> bool" where
  "is_digit c = (c \<in> set ''0123456789'')"

definition digits_value :: "string \<Rightarrow> nat" where
  "digits_value k = foldl (\<lambda>n c. 10 * n + (of_char c - 48)) 0 k"

definition is_index_key :: "string \<Rightarrow> bool" where
  "is_index_key k =
     (k \<noteq> [] \<and> list_all is_digit k \<and> (k = ''0'' \<or> hd k \<noteq> CHR ''0'')
      \<and> digits_value k < 4294967295)"

definition own_property_order :: "(string \<times> json) list \<Rightarrow> (string \<times> json) list" where
  "own_property_order kvs =
     sort_key (\<lambda>kv. digits_value (fst kv)) (filter (\<lambda>kv. is_index_key (fst kv)) kvs)
     @ filter (\<lambda>kv. \<not> is_index_key (fst kv)) kvs"

definition spread :: "json \<Rightarrow> json \<Rightarrow> json" where
  "spread a b = JObj (own_property_order (assign (assign [] (own_props a)) (own_props b)))"

text \<open>\<open>s.startsWith(p)\<close>.\<close>

definition startsWith :: "string \<Rightarrow> string \<Rightarrow> bool" where
  "startsWith s p = (take (length p) s = p)"


section \<open>Result type\<close>

text \<open>
  Modelled from the spec: the \<open>Result\<close> container of lib/MAPLEClient (\<open>Ok\<close>,
  \<open>Err\<close>), which the test suite and every node import but whose source is not part of
  the files at hand.  A result is a tagged union of a success value and an error.
\<close>

datatype ('v, 'e) result = Ok 'v | Err 'e

text \<open>Modelled from the spec: the predicate \<open>isOk\<close> of lib/MAPLEClient, missing here.\<close>

fun isOk :: "('v, 'e) result \<Rightarrow> bool" where
  "isOk (Ok v) = True"
| "isOk (Err e) = False"

text \<open>Modelled from the spec: the predicate \<open>isErr\<close> of lib/MAPLEClient, missing here.\<close>

fun isErr :: "('v, 'e) result \<Rightarrow> bool" where
  "isErr (Ok v) = False"
| "isErr (Err e) = True"

text \<open>
  Modelled from the spec: the field \<open>value\<close> of a result of lib/MAPLEClient, missing
  here, as the test suite reads it; it is \<open>undefined\<close> on an \<open>Err\<close>.
\<close>

fun res_value :: "('v, 'e) result \<Rightarrow> 'v option" where
  "res_value (Ok v) = Some v"
| "res_value (Err e) = None"

text \<open>
  Modelled from the spec: the field \<open>error\<close> of a result of lib/MAPLEClient, missing
  here, as the test suite reads it; it is \<open>undefined\<close> on an \<open>Ok\<close>.
\<close>

fun res_error :: "('v, 'e) result \<Rightarrow> 'e option" where
  "res_error (Ok v) = None"
| "res_error (Err e) = Some e"

text \<open>Modelled from the spec: \<open>unwrapOr(default)\<close> of lib/MAPLEClient, missing here.\<close>

fun unwrapOr :: "('v, 'e) result \<Rightarrow> 'v \<Rightarrow> 'v" where
  "unwrapOr (Ok v) d = v"
| "unwrapOr (Err e) d = d"

text \<open>
  Modelled from the spec: \<open>map(fn)\<close> of lib/MAPLEClient, missing here; it transforms
  the success value only.
\<close>

fun map_result :: "('v \<Rightarrow> 'w) \<Rightarrow> ('v, 'e) result \<Rightarrow> ('w, 'e) result" where
  "map_result f (Ok v) = Ok (f v)"
| "map_result f (Err e) = Err e"

text \<open>
  Modelled from the spec: \<open>mapErr(fn)\<close> of lib/MAPLEClient, missing here; it
  transforms the error only.
\<close>

fun mapErr :: "('e \<Rightarrow> 'f) \<Rightarrow> ('v, 'e) result \<Rightarrow> ('v, 'f) result" where
  "mapErr g (Ok v) = Ok v"
| "mapErr g (Err e) = Err (g e)"

text \<open>
  Modelled from the spec: \<open>andThen(fn)\<close> of lib/MAPLEClient, missing here; chaining
  short-circuits on \<open>Err\<close>.
\<close>

fun andThen :: "('v, 'e) result \<Rightarrow> ('v \<Rightarrow> ('w, 'e) result) \<Rightarrow> ('w, 'e) result" where
  "andThen (Ok v) k = k v"
| "andThen (Err e) k = Err e"

text \<open>
  \<open>MAPLETestSuite.testResultType\<close> of the test suite, the one caller of the container
  that is at hand.  It returns \<open>{success, details}\<close>; its \<open>catch\<close> branch is
  not reachable in the model, where no operation of the container throws.
\<close>

record test_outcome =
  success :: bool
  details :: string

definition testResultType :: test_outcome where
  "testResultType =
     (let okResult = (Ok ''success value'' :: (string, string) result) in
      if \<not> isOk okResult \<or> res_value okResult \<noteq> Some ''success value''
      then \<lparr>success = False, details = ''Ok result creation failed''\<rparr>
      else
        let errResult = (Err ''error message'' :: (string, string) result) in
        if \<not> isErr errResult \<or> res_error errResult \<noteq> Some ''error message''
        then \<lparr>success = False, details = ''Err result creation failed''\<rparr>
        else if unwrapOr okResult ''default'' \<noteq> ''success value''
        then \<lparr>success = False, details = ''unwrapOr method failed''\<rparr>
        else \<lparr>success = True, details = ''All Result type operations passed''\<rparr>)"


section \<open>WebSocket server of the demo launcher\<close>

text \<open>
  \<open>verifyClient\<close> of \<open>MAPLEDemoLauncher.startWebSocketServer\<close>:
  \<^verbatim>\<open>const authHeader = info.req.headers.authorization;
  return authHeader && authHeader.startsWith('Bearer ');\<close>
  The header is absent (\<open>None\<close>) or a string.  The server accepts the handshake when the
  returned value is truthy: an absent or empty header gives a falsy value, any other
  header gives the boolean of \<open>startsWith\<close>.  The launcher object holds three ports and
  three handles and no key, and \<open>verifyClient\<close> reads nothing but the header.
\<close>

definition verifyClient :: "string option \<Rightarrow> bool" where
  "verifyClient authorization =
     (case authorization of
        None \<Rightarrow> False
      | Some authHeader \<Rightarrow> authHeader \<noteq> [] \<and> startsWith authHeader ''Bearer '')"


section \<open>The MAPLE client, seen from its callers\<close>

text \<open>
  The nodes reach the broker through a \<open>MAPLEClient\<close> object.  Its methods are
  asynchronous and effectful, and each returns a \<open>Result\<close>; here a method takes the
  state of the world outside the node (of any type \<open>'s\<close>) and returns its result with
  the new state.  The client is a parameter of every function that uses it.  The clock
  (\<open>new Date().toISOString()\<close>) is read from the same state.
\<close>

record task_request =
  req_agentId :: string
  req_task :: json
  req_resources :: "json option"
  req_priority :: string

record 's client =
  connect :: "'s \<Rightarrow> (json, string) result \<times> 's"
  executeTask :: "task_request \<Rightarrow> 's \<Rightarrow> (json, string) result \<times> 's"
  sendMessage :: "json \<Rightarrow> 's \<Rightarrow> (json, string) result \<times> 's"
  allocateResources :: "json \<Rightarrow> 's \<Rightarrow> (json, string) result \<times> 's"
  createAgent :: "json \<Rightarrow> 's \<Rightarrow> (json, string) result \<times> 's"
  getAgentStatus :: "string \<Rightarrow> 's \<Rightarrow> (json, string) result \<times> 's"
  now :: "'s \<Rightarrow> string"

text \<open>
  What a function did to the outside world is the list of the client calls it made, each
  with the result that came back, in the order of the calls.
\<close>

datatype client_call =
    Connect
  | ExecuteTask task_request
  | SendMessage json
  | AllocateResources json
  | CreateAgent json
  | GetAgentStatus string

type_synonym call_log = "(client_call \<times> (json, string) result) list"

fun is_executeTask :: "client_call \<Rightarrow> bool" where
  "is_executeTask (ExecuteTask r) = True"
| "is_executeTask c = False"

fun call_agent :: "client_call \<Rightarrow> string option" where
  "call_agent (ExecuteTask r) = Some (req_agentId r)"
| "call_agent c = None"

text \<open>
  Readings of a call log.  A step has completed when its \<open>executeTask\<close> call came back
  \<open>Ok\<close>.  Releasing resources and notifying participants are messages to the broker
  (the resource manager node releases with a \<open>RESOURCE_RELEASE\<close> message), so a
  compensating action of any kind shows in the log as a call that is not the
  \<open>executeTask\<close> of a step.
\<close>

definition completed_steps :: "call_log \<Rightarrow> nat" where
  "completed_steps calls = length (filter (\<lambda>cr. is_executeTask (fst cr) \<and> isOk (snd cr)) calls)"

definition compensation_calls :: "call_log \<Rightarrow> call_log" where
  "compensation_calls calls = filter (\<lambda>cr. \<not> is_executeTask (fst cr)) calls"

text \<open>
  A log is tied to the client by replaying it: starting in a state of the world, every
  call of the log, made through the client in the state that the call before it left,
  gives the result that the log records, and the last call leaves the final state.
\<close>

fun perform :: "'s client \<Rightarrow> client_call \<Rightarrow> 's \<Rightarrow> (json, string) result \<times> 's" where
  "perform client Connect s = connect client s"
| "perform client (ExecuteTask q) s = executeTask client q s"
| "perform client (SendMessage m) s = sendMessage client m s"
| "perform client (AllocateResources q) s = allocateResources client q s"
| "perform client (CreateAgent q) s = createAgent client q s"
| "perform client (GetAgentStatus a) s = getAgentStatus client a s"

fun replays :: "'s client \<Rightarrow> 's \<Rightarrow> call_log \<Rightarrow> 's \<Rightarrow> bool" where
  "replays client s [] s' = (s' = s)"
| "replays client s (cr # rest) s' =
     (fst (perform client (fst cr) s) = snd cr
      \<and> replays client (snd (perform client (fst cr) s)) rest s')"


section \<open>Coordinator node: sequential execution\<close>

text \<open>
  \<open>MAPLECoordinator.executeSequentialCoordination(client, agentConfigs, inputData)\<close>.
  The configurations are those built by \<open>orchestrateAgents\<close> (task parameters already
  parsed).  The loop variables are \<open>currentData\<close> and \<open>results\<close>; a thrown
  \<open>Error\<close> is \<open>Inl\<close> of its message and ends the loop.
\<close>

record agent_config =
  agentId :: string
  taskParameters :: json
  priority :: string

fun sequentialCoordination_loop ::
  "'s client \<Rightarrow> agent_config list \<Rightarrow> json \<Rightarrow> json list \<Rightarrow> 's \<Rightarrow> call_log
     \<Rightarrow> (string + json) \<times> 's \<times> call_log" where
  "sequentialCoordination_loop client [] currentData results s calls =
     (Inr (JObj [(''strategy'', JStr ''sequential''), (''results'', JArr results),
                 (''finalResult'', currentData)]), s, calls)"
| "sequentialCoordination_loop client (config # rest) currentData results s calls =
     (let mergedTask = spread (taskParameters config) currentData;
          request = \<lparr>req_agentId = agentId config, req_task = mergedTask,
                     req_resources = None, req_priority = priority config\<rparr>;
          (taskResult, s') = executeTask client request s;
          calls' = calls @ [(ExecuteTask request, taskResult)]
      in case taskResult of
           Ok v \<Rightarrow>
             sequentialCoordination_loop client rest v
               (results @ [JObj [(''agentId'', JStr (agentId config)), (''result'', v)]]) s' calls'
         | Err e \<Rightarrow>
             (Inl (''Sequential coordination failed at agent '' @ agentId config @ '': '' @ e),
              s', calls'))"

definition executeSequentialCoordination ::
  "'s client \<Rightarrow> agent_config list \<Rightarrow> json \<Rightarrow> 's \<Rightarrow> (string + json) \<times> 's \<times> call_log" where
  "executeSequentialCoordination client agentConfigs inputData s =
     sequentialCoordination_loop client agentConfigs inputData [] s []"

text \<open>
  \<open>MAPLECoordinator.executeSequentialPipeline(client, itemIndex)\<close>.  The agents come
  from the node parameter \<open>agents.agent\<close> with the task parameters still a string,
  parsed inside the loop by \<open>JSON.parse(agentConfig.taskParameters || '{}')\<close>; the
  parser is a parameter (\<open>Inl\<close> is the message of the \<open>SyntaxError\<close> it throws).
  Each result carries the time of its push.
\<close>

record raw_agent_config =
  raw_agentId :: string
  raw_taskParameters :: string
  raw_priority :: string

fun sequentialPipeline_loop ::
  "(string \<Rightarrow> string + json) \<Rightarrow> 's client \<Rightarrow> raw_agent_config list \<Rightarrow> json \<Rightarrow> json list
     \<Rightarrow> 's \<Rightarrow> call_log \<Rightarrow> (string + json) \<times> 's \<times> call_log" where
  "sequentialPipeline_loop parse client [] currentData results s calls =
     (Inr (JObj [(''strategy'', JStr ''sequential''), (''results'', JArr results),
                 (''finalResult'', currentData)]), s, calls)"
| "sequentialPipeline_loop parse client (agentConfig # rest) currentData results s calls =
     (case parse (if raw_taskParameters agentConfig \<noteq> [] then raw_taskParameters agentConfig
                  else ''{}'') of
        Inl syntaxError \<Rightarrow> (Inl syntaxError, s, calls)
      | Inr taskParameters' \<Rightarrow>
          (let mergedTask = spread taskParameters' currentData;
               request = \<lparr>req_agentId = raw_agentId agentConfig, req_task = mergedTask,
                          req_resources = None, req_priority = raw_priority agentConfig\<rparr>;
               (taskResult, s') = executeTask client request s;
               calls' = calls @ [(ExecuteTask request, taskResult)]
           in case taskResult of
                Ok v \<Rightarrow>
                  sequentialPipeline_loop parse client rest v
                    (results @ [JObj [(''agentId'', JStr (raw_agentId agentConfig)),
                                      (''result'', v), (''timestamp'', JStr (now client s'))]])
                    s' calls'
              | Err e \<Rightarrow>
                  (Inl (''Agent '' @ raw_agentId agentConfig @ '' failed: '' @ e), s', calls')))"

definition executeSequentialPipeline ::
  "(string \<Rightarrow> string + json) \<Rightarrow> 's client \<Rightarrow> raw_agent_config list \<Rightarrow> json \<Rightarrow> 's
     \<Rightarrow> (string + json) \<times> 's \<times> call_log" where
  "executeSequentialPipeline parse client agents inputData s =
     sequentialPipeline_loop parse client agents inputData [] s []"

text \<open>
  Readings of the log of a sequential run against the declared steps.  The log follows
  the steps when its calls are the \<open>executeTask\<close> requests of the steps, one by one
  from the first: the task of a step is its parameters spread with the current data, which
  is the input at first and then the value of the step before; and a call that came back
  \<open>Err\<close> is the last one.  The current data after a log is the value of its last
  \<open>Ok\<close>.
\<close>

definition step_request :: "agent_config \<Rightarrow> json \<Rightarrow> task_request" where
  "step_request config currentData =
     \<lparr>req_agentId = agentId config, req_task = spread (taskParameters config) currentData,
      req_resources = None, req_priority = priority config\<rparr>"

fun follows_steps :: "agent_config list \<Rightarrow> json \<Rightarrow> call_log \<Rightarrow> bool" where
  "follows_steps configs currentData [] = True"
| "follows_steps [] currentData (cr # rest) = False"
| "follows_steps (config # configs) currentData (cr # rest) =
     (fst cr = ExecuteTask (step_request config currentData)
      \<and> (case snd cr of Ok v \<Rightarrow> follows_steps configs v rest | Err e \<Rightarrow> rest = []))"

fun final_data :: "json \<Rightarrow> call_log \<Rightarrow> json" where
  "final_data currentData [] = currentData"
| "final_data currentData (cr # rest) =
     (case snd cr of Ok v \<Rightarrow> final_data v rest | Err e \<Rightarrow> final_data currentData rest)"

fun step_results :: "agent_config list \<Rightarrow> call_log \<Rightarrow> json list" where
  "step_results (config # configs) (cr # rest) =
     JObj [(''agentId'', JStr (agentId config)),
           (''result'', case snd cr of Ok v \<Rightarrow> v | Err e \<Rightarrow> JNull)]
     # step_results configs rest"
| "step_results configs calls = []"

text \<open>The same readings for the pipeline, whose steps are parsed one by one.\<close>

definition raw_source :: "raw_agent_config \<Rightarrow> string" where
  "raw_source agentConfig =
     (if raw_taskParameters agentConfig \<noteq> [] then raw_taskParameters agentConfig else ''{}'')"

definition raw_request :: "raw_agent_config \<Rightarrow> json \<Rightarrow> json \<Rightarrow> task_request" where
  "raw_request agentConfig parsed currentData =
     \<lparr>req_agentId = raw_agentId agentConfig, req_task = spread parsed currentData,
      req_resources = None, req_priority = raw_priority agentConfig\<rparr>"

fun follows_raw_steps ::
  "(string \<Rightarrow> string + json) \<Rightarrow> raw_agent_config list \<Rightarrow> json \<Rightarrow> call_log \<Rightarrow> bool" where
  "follows_raw_steps parse agents currentData [] = True"
| "follows_raw_steps parse [] currentData (cr # rest) = False"
| "follows_raw_steps parse (agentConfig # agents) currentData (cr # rest) =
     (case parse (raw_source agentConfig) of
        Inl syntaxError \<Rightarrow> False
      | Inr parsed \<Rightarrow>
          fst cr = ExecuteTask (raw_request agentConfig parsed currentData)
          \<and> (case snd cr of Ok v \<Rightarrow> follows_raw_steps parse agents v rest | Err e \<Rightarrow> rest = []))"

fun pipeline_results :: "'s client \<Rightarrow> 's \<Rightarrow> raw_agent_config list \<Rightarrow> call_log \<Rightarrow> json list" where
  "pipeline_results client s (agentConfig # agents) (cr # rest) =
     JObj [(''agentId'', JStr (raw_agentId agentConfig)),
           (''result'', case snd cr of Ok v \<Rightarrow> v | Err e \<Rightarrow> JNull),
           (''timestamp'', JStr (now client (snd (perform client (fst cr) s))))]
     # pipeline_results client (snd (perform client (fst cr) s)) agents rest"
| "pipeline_results client s agents calls = []"

text \<open>
  A broker for trying the coordinator out: the agent \<open>a2\<close> always fails with
  \<open>boom\<close>, every other agent returns its task unchanged.  The state counts the calls.
\<close>

definition a2_fails :: "nat client" where
  "a2_fails =
     \<lparr>connect = (\<lambda>n. (Ok JNull, Suc n)),
      executeTask = (\<lambda>r n. (if req_agentId r = ''a2'' then Err ''boom'' else Ok (req_task r), Suc n)),
      sendMessage = (\<lambda>m n. (Ok m, Suc n)),
      allocateResources = (\<lambda>q n. (Ok q, Suc n)),
      createAgent = (\<lambda>q n. (Ok q, Suc n)),
      getAgentStatus = (\<lambda>a n. (Ok (JStr a), Suc n)),
      now = (\<lambda>n. ''t'')\<rparr>"


definition two_steps :: "agent_config list" where
  "two_steps =
     [\<lparr>agentId = ''a1'', taskParameters = JObj [], priority = ''HIGH''\<rparr>,
      \<lparr>agentId = ''a3'', taskParameters = JObj [], priority = ''HIGH''\<rparr>]"

definition two_raw_steps :: "raw_agent_config list" where
  "two_raw_steps =
     [\<lparr>raw_agentId = ''a1'', raw_taskParameters = [], raw_priority = ''HIGH''\<rparr>,
      \<lparr>raw_agentId = ''a3'', raw_taskParameters = [], raw_priority = ''HIGH''\<rparr>]"



text \<open>A parser for the trial runs: it knows the empty object and rejects everything else.\<close>

definition parse_empty_object :: "string \<Rightarrow> string + json" where
  "parse_empty_object src = (if src = ''{}'' then Inr (JObj []) else Inl ''Unexpected token'')"


section \<open>Demo brokers: the allocate endpoint\<close>

















section \<open>Resource manager node\<close>

text \<open>
  The node parameters of one item, as \<open>getNodeParameter\<close> returns them (defaults
  applied).  \<open>negotiationParams\<close> is the fixed collection
  \<open>{parameter: {flexibility, tradeoffs}}\<close>, or \<open>{}\<close>; \<open>optimizationGoals\<close> is an
  array of strings.
\<close>

record rm_params =
  p_allocationId :: string
  p_resourcePriority :: string
  p_negotiationParams :: json
  p_optimizationGoals :: json
  p_allocationStrategy :: string
  p_resourceType :: string
  p_resourcePool :: string
  p_customPoolName :: string

definition message :: "string \<Rightarrow> string \<Rightarrow> (string \<times> json) list \<Rightarrow> json" where
  "message messageType prio payload =
     JObj [(''header'', JObj [(''messageType'', JStr messageType), (''priority'', JStr prio)]),
           (''payload'', JObj payload)]"

text \<open>
  \<open>MAPLEResourceManager.releaseResources\<close>: one \<open>RESOURCE_RELEASE\<close> message; the
  client's \<open>Err\<close> is thrown as an \<open>Error\<close> carrying it.
\<close>

definition release_message :: "rm_params \<Rightarrow> string \<Rightarrow> json" where
  "release_message p requestedAt =
     message ''RESOURCE_RELEASE'' ''MEDIUM''
       [(''allocationId'', JStr (p_allocationId p)), (''requestedAt'', JStr requestedAt)]"

definition released :: "rm_params \<Rightarrow> string \<Rightarrow> json" where
  "released p releasedAt =
     JObj [(''allocationId'', JStr (p_allocationId p)), (''status'', JStr ''released''),
           (''releasedAt'', JStr releasedAt)]"

definition releaseResources ::
  "'s client \<Rightarrow> rm_params \<Rightarrow> 's \<Rightarrow> (string + json) \<times> 's \<times> call_log" where
  "releaseResources client p s =
     (let msg = release_message p (now client s);
          (releaseResult, s') = sendMessage client msg s
      in case releaseResult of
           Ok v \<Rightarrow> (Inr (released p (now client s')), s', [(SendMessage msg, releaseResult)])
         | Err e \<Rightarrow> (Inl e, s', [(SendMessage msg, releaseResult)]))"

















text \<open>
  The five methods above are modelled as they are written, each called with the client and
  the parameters of one item.  The \<open>switch\<close> of \<open>MAPLEResourceManager.execute\<close>
  that dispatches to them is not modelled: it reaches them through \<open>this\<close>, which n8n
  binds to the execution context and not to the node, so nothing is stated here about the
  entries the node pushes.
\<close>

text \<open>
  Trial data.  A broker that keeps the allocations it holds: it accepts the release of an
  allocation it holds and forgets it, rejects the release of one it does not hold, and
  answers \<open>Err\<close> to every other message.
\<close>

definition payload_allocationId :: "json \<Rightarrow> json option" where
  "payload_allocationId msg = opt_get (get msg ''payload'') ''allocationId''"

definition holding_broker :: "json list client" where
  "holding_broker =
     \<lparr>connect = (\<lambda>held. (Ok JNull, held)),
      executeTask = (\<lambda>q held. (Err ''no agents'', held)),
      sendMessage = (\<lambda>msg held.
        if opt_get (get msg ''header'') ''messageType'' = Some (JStr ''RESOURCE_RELEASE'')
        then (case payload_allocationId msg of
                None \<Rightarrow> (Err ''no allocation id'', held)
              | Some a \<Rightarrow> if a \<in> set held then (Ok JNull, removeAll a held)
                          else (Err ''unknown allocation'', held))
        else (Err ''unsupported message'', held)),
      allocateResources = (\<lambda>q held. (Err ''unsupported'', held)),
      createAgent = (\<lambda>q held. (Err ''unsupported'', held)),
      getAgentStatus = (\<lambda>a held. (Err ''unsupported'', held)),
      now = (\<lambda>held. ''t'')\<rparr>"

definition params0 :: rm_params where
  "params0 =
     \<lparr>p_allocationId = ''alloc_1'', p_resourcePriority = ''HIGH'',
      p_negotiationParams = JObj [(''parameter'', JObj [(''flexibility'', JStr ''strict''),
         (''tradeoffs'', JArr [JStr ''performance'', JStr ''wait_time''])])],
      p_optimizationGoals = JArr [JStr ''cost''], p_allocationStrategy = ''balanced'',
      p_resourceType = ''compute'', p_resourcePool = ''default'', p_customPoolName = []\<rparr>"


text \<open>
  Calling release twice in a row for the same item: the second call starts in the state
  the first one left.  The result holds both outcomes, the final state and all calls made.
\<close>

definition release_twice ::
  "'s client \<Rightarrow> rm_params \<Rightarrow> 's \<Rightarrow> (string + json) \<times> (string + json) \<times> 's \<times> call_log" where
  "release_twice client p s =
     (case releaseResources client p s of
        (out1, s1, calls1) \<Rightarrow>
          (case releaseResources client p s1 of
             (out2, s2, calls2) \<Rightarrow> (out1, out2, s2, calls1 @ calls2)))"

section \<open>Agent node: operations and the retry loop\<close>








text \<open>
  The retry loop of \<open>MAPLEAgent.execute\<close> for one item:
  \<^verbatim>\<open>let attempts = 0; let lastError = null;
  while (attempts <= maxRetryAttempts) {
    try { ...; returnData.push({success: true, ..., attempts: attempts + 1}); break; }
    catch (error) {
      attempts++; lastError = error;
      if (!enableErrorRecovery || attempts > maxRetryAttempts) {
        if (this.continueOnFail()) { returnData.push({success: false, ..., attempts}); break; }
        else throw new NodeOperationError(this.getNode(), error.message);
      }
      const delay = Math.min(1000 * Math.pow(2, attempts - 1), 5000);
      await new Promise(resolve => setTimeout(resolve, delay));
    } }\<close>
  The body of the \<open>try\<close> is a parameter (\<open>attempt\<close>).  The loop variables are
  \<open>attempts\<close> and the state of the world; the history it leaves is kept beside them:
  the client calls made, the errors caught (\<open>lastError\<close> is the last of them) and the
  delays waited, in milliseconds.  \<open>maxRetryAttempts\<close> is the number the user typed,
  an integer of either sign.  The loop can end in three ways: an entry is pushed
  (success or failure), the node throws, or the loop condition is false and nothing
  is pushed (\<open>None\<close>).
\<close>

datatype item_outcome =
    Succeeded json nat
  | Failed string nat
  | Threw string

record 's history =
  world :: 's
  calls_made :: call_log
  errors_caught :: "string list"
  delays_waited :: "nat list"

definition backoff_delay :: "nat \<Rightarrow> nat" where
  "backoff_delay attempts = min (1000 * 2 ^ (attempts - 1)) 5000"

function retry_loop ::
  "('s \<Rightarrow> (string + json) \<times> 's \<times> call_log) \<Rightarrow> bool \<Rightarrow> bool \<Rightarrow> int \<Rightarrow> nat \<Rightarrow> 's history
     \<Rightarrow> item_outcome option \<times> 's history" where
  "retry_loop attempt enableErrorRecovery continueOnFail maxRetryAttempts attempts h =
     (if int attempts \<le> maxRetryAttempts then
        (case attempt (world h) of
           (Inr result, s', cs) \<Rightarrow>
             (Some (Succeeded result (attempts + 1)),
              h\<lparr>world := s', calls_made := calls_made h @ cs\<rparr>)
         | (Inl error_message, s', cs) \<Rightarrow>
             (if \<not> enableErrorRecovery \<or> int (attempts + 1) > maxRetryAttempts then
                (Some (if continueOnFail then Failed error_message (attempts + 1)
                       else Threw error_message),
                 h\<lparr>world := s', calls_made := calls_made h @ cs,
                   errors_caught := errors_caught h @ [error_message]\<rparr>)
              else
                retry_loop attempt enableErrorRecovery continueOnFail maxRetryAttempts
                  (attempts + 1)
                  (h\<lparr>world := s', calls_made := calls_made h @ cs,
                     errors_caught := errors_caught h @ [error_message],
                     delays_waited := delays_waited h @ [backoff_delay (attempts + 1)]\<rparr>)))
      else (None, h))"
  by pat_completeness auto
termination
  by (relation "measure (\<lambda>(attempt, rec, cof, m, attempts, h). nat (m + 1 - int attempts))") auto

declare retry_loop.simps [simp del]

definition start :: "'s \<Rightarrow> 's history" where
  "start s = \<lparr>world = s, calls_made = [], errors_caught = [], delays_waited = []\<rparr>"



















section \<open>Theorems\<close>

subsection \<open>Helper facts\<close>

lemmas spread_eval = spread_def own_property_order_def is_index_key_def is_digit_def

lemma startsWith_iff: "startsWith s p \<longleftrightarrow> (\<exists>t. s = p @ t)"
proof
  assume "startsWith s p"
  then have "s = p @ drop (length p) s"
    unfolding startsWith_def by (metis append_take_drop_id)
  then show "\<exists>t. s = p @ t" ..
next
  assume "\<exists>t. s = p @ t"
  then show "startsWith s p"
    unfolding startsWith_def by auto
qed

lemma seq_loop_calls:
  "sequentialCoordination_loop client configs cur results s calls = (out, s', calls') \<Longrightarrow>
   \<exists>new. calls' = calls @ new \<and> length new \<le> length configs \<and>
     list_all (\<lambda>cr. is_executeTask (fst cr)) new \<and>
     map (\<lambda>cr. call_agent (fst cr)) new = map (\<lambda>c. Some (agentId c)) (take (length new) configs) \<and>
     (case out of
        Inl msg \<Rightarrow> new \<noteq> [] \<and> list_all (\<lambda>cr. isOk (snd cr)) (butlast new) \<and>
           (\<exists>e. snd (last new) = Err e \<and>
              msg = ''Sequential coordination failed at agent '' @ agentId (configs ! (length new - 1)) @ '': '' @ e)
      | Inr v \<Rightarrow> length new = length configs \<and> list_all (\<lambda>cr. isOk (snd cr)) new)"
proof (induction configs arbitrary: cur results s calls)
  case Nil
  then show ?case by auto
next
  case (Cons config rest)
  let ?req = "\<lparr>req_agentId = agentId config, req_task = spread (taskParameters config) cur, req_resources = None,
                 req_priority = priority config\<rparr>"
  obtain r s1 where ex: "executeTask client ?req s = (r, s1)" by (cases "executeTask client ?req s")
  show ?case
  proof (cases r)
    case (Ok v)
    with Cons.prems ex have
      "sequentialCoordination_loop client rest v
         (results @ [JObj [(''agentId'', JStr (agentId config)), (''result'', v)]]) s1
         (calls @ [(ExecuteTask ?req, r)]) = (out, s', calls')"
      by (simp add: Let_def)
    from Cons.IH[OF this] obtain new where n:
      "calls' = (calls @ [(ExecuteTask ?req, r)]) @ new" "length new \<le> length rest"
      "list_all (\<lambda>cr. is_executeTask (fst cr)) new"
      "map (\<lambda>cr. call_agent (fst cr)) new = map (\<lambda>c. Some (agentId c)) (take (length new) rest)"
      "(case out of
        Inl msg \<Rightarrow> new \<noteq> [] \<and> list_all (\<lambda>cr. isOk (snd cr)) (butlast new) \<and>
           (\<exists>e. snd (last new) = Err e \<and>
              msg = ''Sequential coordination failed at agent '' @ agentId (rest ! (length new - 1)) @ '': '' @ e)
      | Inr v \<Rightarrow> length new = length rest \<and> list_all (\<lambda>cr. isOk (snd cr)) new)"
      by blast
    let ?new = "(ExecuteTask ?req, r) # new"
    have "calls' = calls @ ?new" using n(1) by simp
    moreover have "length ?new \<le> length (config # rest)" using n(2) by simp
    moreover have "list_all (\<lambda>cr. is_executeTask (fst cr)) ?new" using n(3) by simp
    moreover have "map (\<lambda>cr. call_agent (fst cr)) ?new
        = map (\<lambda>c. Some (agentId c)) (take (length ?new) (config # rest))" using n(4) by simp
    moreover have "(case out of
        Inl msg \<Rightarrow> ?new \<noteq> [] \<and> list_all (\<lambda>cr. isOk (snd cr)) (butlast ?new) \<and>
           (\<exists>e. snd (last ?new) = Err e \<and>
              msg = ''Sequential coordination failed at agent '' @ agentId ((config # rest) ! (length ?new - 1)) @ '': '' @ e)
      | Inr v \<Rightarrow> length ?new = length (config # rest) \<and> list_all (\<lambda>cr. isOk (snd cr)) ?new)"
      using n(5) Ok by (cases out) (auto simp: nth_Cons')
    ultimately show ?thesis by blast
  next
    case (Err e)
    with Cons.prems ex have o: "out = Inl (''Sequential coordination failed at agent '' @ agentId config @ '': '' @ e)"
      and c: "calls' = calls @ [(ExecuteTask ?req, r)]"
      by (simp_all add: Let_def)
    show ?thesis
      by (rule exI[of _ "[(ExecuteTask ?req, r)]"]) (simp add: o c Err)
  qed
qed

lemma pipe_loop_calls:
  "sequentialPipeline_loop parse client agents cur results s calls = (out, s', calls') \<Longrightarrow>
   \<exists>new. calls' = calls @ new \<and> length new \<le> length agents \<and>
     list_all (\<lambda>cr. is_executeTask (fst cr)) new \<and>
     map (\<lambda>cr. call_agent (fst cr)) new = map (\<lambda>c. Some (raw_agentId c)) (take (length new) agents) \<and>
     (case out of
        Inl msg \<Rightarrow>
          (new \<noteq> [] \<and> list_all (\<lambda>cr. isOk (snd cr)) (butlast new) \<and>
           (\<exists>e. snd (last new) = Err e \<and>
              msg = ''Agent '' @ raw_agentId (agents ! (length new - 1)) @ '' failed: '' @ e))
          \<or> (list_all (\<lambda>cr. isOk (snd cr)) new \<and> length new < length agents)
      | Inr v \<Rightarrow> length new = length agents \<and> list_all (\<lambda>cr. isOk (snd cr)) new)"
proof (induction agents arbitrary: cur results s calls)
  case Nil
  then show ?case by auto
next
  case (Cons agentConfig rest)
  let ?src = "if raw_taskParameters agentConfig \<noteq> [] then raw_taskParameters agentConfig else ''{}''"
  show ?case
  proof (cases "parse ?src")
    case (Inl syntaxError)
    with Cons.prems have "out = Inl syntaxError" "calls' = calls" by simp_all
    then show ?thesis by (intro exI[of _ "[]"]) simp
  next
    case (Inr tp)
    let ?req = "\<lparr>req_agentId = raw_agentId agentConfig, req_task = spread tp cur, req_resources = None,
                   req_priority = raw_priority agentConfig\<rparr>"
    obtain r s1 where ex: "executeTask client ?req s = (r, s1)" by (cases "executeTask client ?req s")
    show ?thesis
    proof (cases r)
      case (Ok v)
      with Cons.prems ex Inr have
        "sequentialPipeline_loop parse client rest v
           (results @ [JObj [(''agentId'', JStr (raw_agentId agentConfig)), (''result'', v),
                             (''timestamp'', JStr (now client s1))]]) s1
           (calls @ [(ExecuteTask ?req, r)]) = (out, s', calls')"
        by (simp add: Let_def)
      from Cons.IH[OF this] obtain new where n:
        "calls' = (calls @ [(ExecuteTask ?req, r)]) @ new" "length new \<le> length rest"
        "list_all (\<lambda>cr. is_executeTask (fst cr)) new"
        "map (\<lambda>cr. call_agent (fst cr)) new = map (\<lambda>c. Some (raw_agentId c)) (take (length new) rest)"
        "(case out of
          Inl msg \<Rightarrow>
            (new \<noteq> [] \<and> list_all (\<lambda>cr. isOk (snd cr)) (butlast new) \<and>
             (\<exists>e. snd (last new) = Err e \<and>
                msg = ''Agent '' @ raw_agentId (rest ! (length new - 1)) @ '' failed: '' @ e))
            \<or> (list_all (\<lambda>cr. isOk (snd cr)) new \<and> length new < length rest)
        | Inr v \<Rightarrow> length new = length rest \<and> list_all (\<lambda>cr. isOk (snd cr)) new)"
        by blast
      let ?new = "(ExecuteTask ?req, r) # new"
      have "calls' = calls @ ?new" using n(1) by simp
      moreover have "length ?new \<le> length (agentConfig # rest)" using n(2) by simp
      moreover have "list_all (\<lambda>cr. is_executeTask (fst cr)) ?new" using n(3) by simp
      moreover have "map (\<lambda>cr. call_agent (fst cr)) ?new
          = map (\<lambda>c. Some (raw_agentId c)) (take (length ?new) (agentConfig # rest))" using n(4) by simp
      moreover have "(case out of
          Inl msg \<Rightarrow>
            (?new \<noteq> [] \<and> list_all (\<lambda>cr. isOk (snd cr)) (butlast ?new) \<and>
             (\<exists>e. snd (last ?new) = Err e \<and>
                msg = ''Agent '' @ raw_agentId ((agentConfig # rest) ! (length ?new - 1)) @ '' failed: '' @ e))
            \<or> (list_all (\<lambda>cr. isOk (snd cr)) ?new \<and> length ?new < length (agentConfig # rest))
        | Inr v \<Rightarrow> length ?new = length (agentConfig # rest) \<and> list_all (\<lambda>cr. isOk (snd cr)) ?new)"
        using n(5) Ok by (cases out) (auto simp: nth_Cons')
      ultimately show ?thesis by blast
    next
      case (Err e)
      with Cons.prems ex Inr have o: "out = Inl (''Agent '' @ raw_agentId agentConfig @ '' failed: '' @ e)"
        and c: "calls' = calls @ [(ExecuteTask ?req, r)]"
        by (simp_all add: Let_def)
      show ?thesis
        by (rule exI[of _ "[(ExecuteTask ?req, r)]"]) (simp add: o c Err)
    qed
  qed
qed

lemma completed_all_ok:
  "list_all (\<lambda>cr. is_executeTask (fst cr)) cs \<Longrightarrow> list_all (\<lambda>cr. isOk (snd cr)) cs \<Longrightarrow>
   completed_steps cs = length cs"
  unfolding completed_steps_def by (induction cs) auto


lemma no_compensation_calls:
  "list_all (\<lambda>cr. is_executeTask (fst cr)) cs \<Longrightarrow> compensation_calls cs = []"
  unfolding compensation_calls_def by (induction cs) auto








































lemma seq_loop_replay:
  "sequentialCoordination_loop client configs cur results s calls = (out, s', calls') \<Longrightarrow>
   \<exists>new. calls' = calls @ new \<and> replays client s new s' \<and> follows_steps configs cur new
     \<and> (case out of
          Inl msg \<Rightarrow> True
        | Inr v \<Rightarrow>
            v = JObj [(''strategy'', JStr ''sequential''),
                      (''results'', JArr (results @ step_results configs new)),
                      (''finalResult'', final_data cur new)])"
proof (induction configs arbitrary: cur results s calls)
  case Nil
  then show ?case by auto
next
  case (Cons config rest)
  let ?req = "step_request config cur"
  obtain r s1 where ex: "executeTask client ?req s = (r, s1)" by (cases "executeTask client ?req s")
  show ?case
  proof (cases r)
    case (Ok v)
    with Cons.prems ex have
      "sequentialCoordination_loop client rest v
         (results @ [JObj [(''agentId'', JStr (agentId config)), (''result'', v)]]) s1
         (calls @ [(ExecuteTask ?req, r)]) = (out, s', calls')"
      by (simp add: Let_def step_request_def)
    from Cons.IH[OF this] obtain new where n:
      "calls' = (calls @ [(ExecuteTask ?req, r)]) @ new" "replays client s1 new s'"
      "follows_steps rest v new"
      "(case out of
          Inl msg \<Rightarrow> True
        | Inr w \<Rightarrow>
            w = JObj [(''strategy'', JStr ''sequential''),
                      (''results'', JArr ((results @ [JObj [(''agentId'', JStr (agentId config)), (''result'', v)]])
                                          @ step_results rest new)),
                      (''finalResult'', final_data v new)])"
      by blast
    let ?new = "(ExecuteTask ?req, r) # new"
    have "calls' = calls @ ?new" using n(1) by simp
    moreover have "replays client s ?new s'" using n(2) ex by simp
    moreover have "follows_steps (config # rest) cur ?new" using n(3) Ok by simp
    moreover have "(case out of
          Inl msg \<Rightarrow> True
        | Inr w \<Rightarrow>
            w = JObj [(''strategy'', JStr ''sequential''),
                      (''results'', JArr (results @ step_results (config # rest) ?new)),
                      (''finalResult'', final_data cur ?new)])"
      using n(4) Ok by (cases out) simp_all
    ultimately show ?thesis by blast
  next
    case (Err e)
    with Cons.prems ex have o: "out = Inl (''Sequential coordination failed at agent '' @ agentId config @ '': '' @ e)"
      and c: "calls' = calls @ [(ExecuteTask ?req, r)]" and st: "s' = s1"
      by (simp_all add: Let_def step_request_def)
    show ?thesis
      by (rule exI[of _ "[(ExecuteTask ?req, r)]"]) (simp add: o c st Err ex)
  qed
qed

lemma follows_steps_shape:
  "follows_steps configs cur new \<Longrightarrow>
   length new \<le> length configs
   \<and> list_all (\<lambda>cr. is_executeTask (fst cr)) new
   \<and> list_all (\<lambda>cr. isOk (snd cr)) (butlast new)
   \<and> map (\<lambda>cr. call_agent (fst cr)) new = map (\<lambda>c. Some (agentId c)) (take (length new) configs)"
proof (induction configs cur new rule: follows_steps.induct)
  case (1 configs currentData)
  then show ?case by simp
next
  case (2 currentData cr rest)
  then show ?case by simp
next
  case (3 config configs currentData cr rest)
  show ?case
  proof (cases "snd cr")
    case (Ok v)
    with "3.prems" have f: "follows_steps configs v rest"
      and c: "fst cr = ExecuteTask (step_request config currentData)" by simp_all
    from "3.IH"[OF Ok f] c Ok show ?thesis by (auto simp: step_request_def)
  next
    case (Err e)
    with "3.prems" have "rest = []"
      and c: "fst cr = ExecuteTask (step_request config currentData)" by simp_all
    then show ?thesis by (simp add: step_request_def)
  qed
qed

lemma pipe_loop_replay:
  "sequentialPipeline_loop parse client agents cur results s calls = (out, s', calls') \<Longrightarrow>
   \<exists>new. calls' = calls @ new \<and> replays client s new s' \<and> follows_raw_steps parse agents cur new
     \<and> (case out of
          Inl msg \<Rightarrow>
            (new \<noteq> [] \<and> (\<exists>e. snd (last new) = Err e))
            \<or> (list_all (\<lambda>cr. isOk (snd cr)) new \<and> length new < length agents
                \<and> parse (raw_source (agents ! length new)) = Inl msg)
        | Inr v \<Rightarrow>
            v = JObj [(''strategy'', JStr ''sequential''),
                      (''results'', JArr (results @ pipeline_results client s agents new)),
                      (''finalResult'', final_data cur new)])"
proof (induction agents arbitrary: cur results s calls)
  case Nil
  then show ?case by auto
next
  case (Cons agentConfig rest)
  show ?case
  proof (cases "parse (raw_source agentConfig)")
    case (Inl syntaxError)
    with Cons.prems have "out = Inl syntaxError" "calls' = calls" "s' = s"
      by (simp_all add: raw_source_def)
    then show ?thesis using Inl by (intro exI[of _ "[]"]) simp
  next
    case (Inr tp)
    let ?req = "raw_request agentConfig tp cur"
    obtain r s1 where ex: "executeTask client ?req s = (r, s1)" by (cases "executeTask client ?req s")
    show ?thesis
    proof (cases r)
      case (Ok v)
      with Cons.prems ex Inr have
        "sequentialPipeline_loop parse client rest v
           (results @ [JObj [(''agentId'', JStr (raw_agentId agentConfig)), (''result'', v),
                             (''timestamp'', JStr (now client s1))]]) s1
           (calls @ [(ExecuteTask ?req, r)]) = (out, s', calls')"
        by (simp add: Let_def raw_source_def raw_request_def)
      from Cons.IH[OF this] obtain new where n:
        "calls' = (calls @ [(ExecuteTask ?req, r)]) @ new" "replays client s1 new s'"
        "follows_raw_steps parse rest v new"
        "(case out of
          Inl msg \<Rightarrow>
            (new \<noteq> [] \<and> (\<exists>e. snd (last new) = Err e))
            \<or> (list_all (\<lambda>cr. isOk (snd cr)) new \<and> length new < length rest
                \<and> parse (raw_source (rest ! length new)) = Inl msg)
        | Inr w \<Rightarrow>
            w = JObj [(''strategy'', JStr ''sequential''),
                      (''results'', JArr ((results @ [JObj [(''agentId'', JStr (raw_agentId agentConfig)),
                             (''result'', v), (''timestamp'', JStr (now client s1))]])
                          @ pipeline_results client s1 rest new)),
                      (''finalResult'', final_data v new)])"
        by blast
      let ?new = "(ExecuteTask ?req, r) # new"
      have "calls' = calls @ ?new" using n(1) by simp
      moreover have "replays client s ?new s'" using n(2) ex by simp
      moreover have "follows_raw_steps parse (agentConfig # rest) cur ?new"
        using n(3) Ok Inr by simp
      moreover have "(case out of
          Inl msg \<Rightarrow>
            (?new \<noteq> [] \<and> (\<exists>e. snd (last ?new) = Err e))
            \<or> (list_all (\<lambda>cr. isOk (snd cr)) ?new \<and> length ?new < length (agentConfig # rest)
                \<and> parse (raw_source ((agentConfig # rest) ! length ?new)) = Inl msg)
        | Inr w \<Rightarrow>
            w = JObj [(''strategy'', JStr ''sequential''),
                      (''results'', JArr (results @ pipeline_results client s (agentConfig # rest) ?new)),
                      (''finalResult'', final_data cur ?new)])"
        using n(4) Ok ex by (cases out) auto
      ultimately show ?thesis by blast
    next
      case (Err e)
      with Cons.prems ex Inr have o: "out = Inl (''Agent '' @ raw_agentId agentConfig @ '' failed: '' @ e)"
        and c: "calls' = calls @ [(ExecuteTask ?req, r)]" and st: "s' = s1"
        by (simp_all add: Let_def raw_source_def raw_request_def)
      show ?thesis
        by (rule exI[of _ "[(ExecuteTask ?req, r)]"]) (simp add: o c st Err ex Inr)
    qed
  qed
qed

subsection \<open>Result type\<close>

text \<open>
  C6.  For every value \<open>v\<close>, error \<open>e\<close> and default \<open>d\<close>: \<open>Ok v\<close> is ok
  (and not an error), carries the value \<open>v\<close>, and \<open>unwrapOr\<close> gives \<open>v\<close>;
  \<open>Err e\<close> is an error (and not ok), carries the error \<open>e\<close>, and \<open>unwrapOr\<close>
  gives the default; \<open>map\<close> changes the success value and leaves an error alone,
  \<open>mapErr\<close> changes the error and leaves a success alone, \<open>andThen\<close> runs the
  continuation on a success and returns the error unchanged, without running it, on an
  \<open>Err\<close>.  Every operation is a total function defined on both variants whose result
  is a plain value, so none of them throws; the test of the test suite passes.
\<close>

theorem result_contract:
  "isOk (Ok v :: ('v, 'e) result) \<and> \<not> isErr (Ok v :: ('v, 'e) result)
   \<and> res_value (Ok v :: ('v, 'e) result) = Some v
   \<and> unwrapOr (Ok v :: ('v, 'e) result) d = v
   \<and> isErr (Err e :: ('v, 'e) result) \<and> \<not> isOk (Err e :: ('v, 'e) result)
   \<and> res_error (Err e :: ('v, 'e) result) = Some e
   \<and> unwrapOr (Err e :: ('v, 'e) result) d = d
   \<and> map_result f (Ok v :: ('v, 'e) result) = Ok (f v)
   \<and> map_result f (Err e :: ('v, 'e) result) = Err e
   \<and> mapErr g (Ok v :: ('v, 'e) result) = Ok v
   \<and> mapErr g (Err e :: ('v, 'e) result) = Err (g e)
   \<and> andThen (Ok v :: ('v, 'e) result) k = k v
   \<and> andThen (Err e :: ('v, 'e) result) k = Err e
   \<and> testResultType = \<lparr>success = True, details = ''All Result type operations passed''\<rparr>"
  by (simp add: testResultType_def)

theorem result_contract_witness:
  "isOk (Ok ''success value'' :: (string, string) result)
   \<and> \<not> isErr (Ok ''success value'' :: (string, string) result)
   \<and> res_value (Ok ''success value'' :: (string, string) result) = Some ''success value''
   \<and> unwrapOr (Ok ''success value'' :: (string, string) result) ''default'' = ''success value''
   \<and> isErr (Err ''error message'' :: (string, string) result)
   \<and> \<not> isOk (Err ''error message'' :: (string, string) result)
   \<and> res_error (Err ''error message'' :: (string, string) result) = Some ''error message''
   \<and> unwrapOr (Err ''error message'' :: (string, string) result) ''default'' = ''default''
   \<and> map_result length (Ok ''success value'' :: (string, string) result) = Ok (length ''success value'')
   \<and> map_result length (Err ''error message'' :: (string, string) result) = Err ''error message''
   \<and> mapErr length (Ok ''success value'' :: (string, string) result) = Ok ''success value''
   \<and> mapErr length (Err ''error message'' :: (string, string) result) = Err (length ''error message'')
   \<and> andThen (Ok ''success value'' :: (string, string) result) (\<lambda>s. Ok (length s)) = Ok (length ''success value'')
   \<and> andThen (Err ''error message'' :: (string, string) result) (\<lambda>s. Ok (length s)) = Err ''error message''
   \<and> testResultType = \<lparr>success = True, details = ''All Result type operations passed''\<rparr>"
  by (rule result_contract)

subsection \<open>Coordinator: sequential runs\<close>

text \<open>
  C8.  For every sequential run of the coordinator (\<open>executeSequentialCoordination\<close>
  and \<open>executeSequentialPipeline\<close>) that returns a final result: the calls it made
  are the \<open>executeTask\<close> requests of the declared steps, one for every step and in the
  declared order, each made through the client in the state that the call before it left,
  up to the final state; every one of these calls came back \<open>Ok\<close> from the client, so
  that all declared steps completed; the result returned lists the values of these calls
  and ends with the last of them; and no other call was made, so no compensating action
  ran.
\<close>

theorem completed_all_steps_ok_no_compensation:
  "(executeSequentialCoordination client agentConfigs inputData s = (Inr final, s', calls) \<longrightarrow>
      replays client s calls s'
    \<and> follows_steps agentConfigs inputData calls
    \<and> length calls = length agentConfigs
    \<and> map (\<lambda>cr. call_agent (fst cr)) calls = map (\<lambda>c. Some (agentId c)) agentConfigs
    \<and> list_all (\<lambda>cr. is_executeTask (fst cr) \<and> isOk (snd cr)) calls
    \<and> final = JObj [(''strategy'', JStr ''sequential''),
                     (''results'', JArr (step_results agentConfigs calls)),
                     (''finalResult'', final_data inputData calls)]
    \<and> completed_steps calls = length agentConfigs
    \<and> compensation_calls calls = [])
   \<and> (executeSequentialPipeline parse client agents inputData s = (Inr final, s', calls) \<longrightarrow>
      replays client s calls s'
    \<and> follows_raw_steps parse agents inputData calls
    \<and> length calls = length agents
    \<and> map (\<lambda>cr. call_agent (fst cr)) calls = map (\<lambda>c. Some (raw_agentId c)) agents
    \<and> list_all (\<lambda>cr. is_executeTask (fst cr) \<and> isOk (snd cr)) calls
    \<and> final = JObj [(''strategy'', JStr ''sequential''),
                     (''results'', JArr (pipeline_results client s agents calls)),
                     (''finalResult'', final_data inputData calls)]
    \<and> completed_steps calls = length agents
    \<and> compensation_calls calls = [])"
proof (intro conjI impI)
  assume a: "executeSequentialCoordination client agentConfigs inputData s = (Inr final, s', calls)"
  from seq_loop_calls[OF a[unfolded executeSequentialCoordination_def]]
  have f: "length calls = length agentConfigs"
    "list_all (\<lambda>cr. is_executeTask (fst cr)) calls" "list_all (\<lambda>cr. isOk (snd cr)) calls"
    "map (\<lambda>cr. call_agent (fst cr)) calls = map (\<lambda>c. Some (agentId c)) (take (length calls) agentConfigs)"
    by auto
  from seq_loop_replay[OF a[unfolded executeSequentialCoordination_def]]
  have g: "replays client s calls s'" "follows_steps agentConfigs inputData calls"
    "final = JObj [(''strategy'', JStr ''sequential''),
                   (''results'', JArr (step_results agentConfigs calls)),
                   (''finalResult'', final_data inputData calls)]"
    by auto
  show "replays client s calls s'" by (rule g(1))
  show "follows_steps agentConfigs inputData calls" by (rule g(2))
  show "final = JObj [(''strategy'', JStr ''sequential''),
                     (''results'', JArr (step_results agentConfigs calls)),
                     (''finalResult'', final_data inputData calls)]" by (rule g(3))
  show "length calls = length agentConfigs" by (rule f(1))
  show "map (\<lambda>cr. call_agent (fst cr)) calls = map (\<lambda>c. Some (agentId c)) agentConfigs"
    using f(4) f(1) by simp
  show "list_all (\<lambda>cr. is_executeTask (fst cr) \<and> isOk (snd cr)) calls"
    using f(2,3) by (simp add: list_all_iff)
  show "completed_steps calls = length agentConfigs"
    using completed_all_ok[OF f(2,3)] f(1) by simp
  show "compensation_calls calls = []" by (rule no_compensation_calls[OF f(2)])
next
  assume a: "executeSequentialPipeline parse client agents inputData s = (Inr final, s', calls)"
  from pipe_loop_calls[OF a[unfolded executeSequentialPipeline_def]]
  have f: "length calls = length agents"
    "list_all (\<lambda>cr. is_executeTask (fst cr)) calls" "list_all (\<lambda>cr. isOk (snd cr)) calls"
    "map (\<lambda>cr. call_agent (fst cr)) calls = map (\<lambda>c. Some (raw_agentId c)) (take (length calls) agents)"
    by auto
  from pipe_loop_replay[OF a[unfolded executeSequentialPipeline_def]]
  have g: "replays client s calls s'" "follows_raw_steps parse agents inputData calls"
    "final = JObj [(''strategy'', JStr ''sequential''),
                   (''results'', JArr (pipeline_results client s agents calls)),
                   (''finalResult'', final_data inputData calls)]"
    by auto
  show "replays client s calls s'" by (rule g(1))
  show "follows_raw_steps parse agents inputData calls" by (rule g(2))
  show "final = JObj [(''strategy'', JStr ''sequential''),
                     (''results'', JArr (pipeline_results client s agents calls)),
                     (''finalResult'', final_data inputData calls)]" by (rule g(3))
  show "length calls = length agents" by (rule f(1))
  show "map (\<lambda>cr. call_agent (fst cr)) calls = map (\<lambda>c. Some (raw_agentId c)) agents"
    using f(4) f(1) by simp
  show "list_all (\<lambda>cr. is_executeTask (fst cr) \<and> isOk (snd cr)) calls"
    using f(2,3) by (simp add: list_all_iff)
  show "completed_steps calls = length agents"
    using completed_all_ok[OF f(2,3)] f(1) by simp
  show "compensation_calls calls = []" by (rule no_compensation_calls[OF f(2)])
qed

theorem completed_all_steps_ok_no_compensation_witness:
  "executeSequentialCoordination a2_fails two_steps (JObj []) 0
     = (Inr (JObj [(''strategy'', JStr ''sequential''),
                   (''results'', JArr [JObj [(''agentId'', JStr ''a1''), (''result'', JObj [])],
                                       JObj [(''agentId'', JStr ''a3''), (''result'', JObj [])]]),
                   (''finalResult'', JObj [])]), 2,
        [(ExecuteTask \<lparr>req_agentId = ''a1'', req_task = JObj [], req_resources = None,
                       req_priority = ''HIGH''\<rparr>, Ok (JObj [])),
         (ExecuteTask \<lparr>req_agentId = ''a3'', req_task = JObj [], req_resources = None,
                       req_priority = ''HIGH''\<rparr>, Ok (JObj []))])
   \<and> replays a2_fails 0 (snd (snd (executeSequentialCoordination a2_fails two_steps (JObj []) 0))) 2
   \<and> completed_steps (snd (snd (executeSequentialCoordination a2_fails two_steps (JObj []) 0))) = 2
   \<and> compensation_calls (snd (snd (executeSequentialCoordination a2_fails two_steps (JObj []) 0))) = []
   \<and> executeSequentialPipeline parse_empty_object a2_fails two_raw_steps (JObj []) 0
     = (Inr (JObj [(''strategy'', JStr ''sequential''),
                   (''results'', JArr [JObj [(''agentId'', JStr ''a1''), (''result'', JObj []),
                                             (''timestamp'', JStr ''t'')],
                                       JObj [(''agentId'', JStr ''a3''), (''result'', JObj []),
                                             (''timestamp'', JStr ''t'')]]),
                   (''finalResult'', JObj [])]), 2,
        [(ExecuteTask \<lparr>req_agentId = ''a1'', req_task = JObj [], req_resources = None,
                       req_priority = ''HIGH''\<rparr>, Ok (JObj [])),
         (ExecuteTask \<lparr>req_agentId = ''a3'', req_task = JObj [], req_resources = None,
                       req_priority = ''HIGH''\<rparr>, Ok (JObj []))])
   \<and> replays a2_fails 0
        (snd (snd (executeSequentialPipeline parse_empty_object a2_fails two_raw_steps (JObj []) 0))) 2
   \<and> completed_steps (snd (snd (executeSequentialPipeline parse_empty_object a2_fails two_raw_steps (JObj []) 0))) = 2"
proof -
  let ?F = "JObj [(''strategy'', JStr ''sequential''),
                  (''results'', JArr [JObj [(''agentId'', JStr ''a1''), (''result'', JObj [])],
                                      JObj [(''agentId'', JStr ''a3''), (''result'', JObj [])]]),
                  (''finalResult'', JObj [])]"
  let ?G = "JObj [(''strategy'', JStr ''sequential''),
                  (''results'', JArr [JObj [(''agentId'', JStr ''a1''), (''result'', JObj []),
                                            (''timestamp'', JStr ''t'')],
                                      JObj [(''agentId'', JStr ''a3''), (''result'', JObj []),
                                            (''timestamp'', JStr ''t'')]]),
                  (''finalResult'', JObj [])]"
  let ?C = "[(ExecuteTask \<lparr>req_agentId = ''a1'', req_task = JObj [], req_resources = None,
                            req_priority = ''HIGH''\<rparr>, Ok (JObj [])),
             (ExecuteTask \<lparr>req_agentId = ''a3'', req_task = JObj [], req_resources = None,
                            req_priority = ''HIGH''\<rparr>, Ok (JObj []))]"
  have r1: "executeSequentialCoordination a2_fails two_steps (JObj []) 0 = (Inr ?F, 2, ?C)"
    by (simp add: executeSequentialCoordination_def a2_fails_def two_steps_def spread_eval Let_def)
  have r2: "executeSequentialPipeline parse_empty_object a2_fails two_raw_steps (JObj []) 0 = (Inr ?G, 2, ?C)"
    by (simp add: executeSequentialPipeline_def a2_fails_def two_raw_steps_def spread_eval Let_def
        parse_empty_object_def)
  note t = completed_all_steps_ok_no_compensation
    [of a2_fails two_steps "JObj []" 0 ?F 2 ?C parse_empty_object two_raw_steps, THEN conjunct1,
     THEN mp, OF r1]
  note u = completed_all_steps_ok_no_compensation
    [of a2_fails two_steps "JObj []" 0 ?G 2 ?C parse_empty_object two_raw_steps, THEN conjunct2,
     THEN mp, OF r2]
  from t have a: "replays a2_fails 0 ?C 2" "completed_steps ?C = length two_steps"
    "compensation_calls ?C = []" by blast+
  from u have b: "replays a2_fails 0 ?C 2" "completed_steps ?C = length two_raw_steps" by blast+
  have l: "length two_steps = 2" "length two_raw_steps = 2"
    by (simp_all add: two_steps_def two_raw_steps_def)
  show ?thesis
    unfolding r1 r2 snd_conv using a b l by simp
qed




subsection \<open>Demo brokers: allocation\<close>







subsection \<open>Resource manager node\<close>







text \<open>
  C4, as the code has it.  The node keeps no allocation and no pool state, and it does not
  look at whether an allocation was released before.  Each of two calls of release in a
  row sends one \<open>RESOURCE_RELEASE\<close> message for the allocation; a call returns
  \<open>released\<close> exactly when the client's answer to its own message is \<open>Ok\<close>, and
  throws the client's error otherwise.  So the second call succeeds when the client
  answers \<open>Ok\<close> a second time, and only then.
\<close>

theorem release_twice_follows_client:
  "release_twice client p s = (out1, out2, s2, calls) \<Longrightarrow>
   \<exists>r1 s1 r2.
      sendMessage client (release_message p (now client s)) s = (r1, s1)
    \<and> sendMessage client (release_message p (now client s1)) s1 = (r2, s2)
    \<and> calls = [(SendMessage (release_message p (now client s)), r1),
                (SendMessage (release_message p (now client s1)), r2)]
    \<and> out1 = (case r1 of Ok v \<Rightarrow> Inr (released p (now client s1)) | Err e \<Rightarrow> Inl e)
    \<and> out2 = (case r2 of Ok v \<Rightarrow> Inr (released p (now client s2)) | Err e \<Rightarrow> Inl e)"
proof -
  assume a: "release_twice client p s = (out1, out2, s2, calls)"
  obtain r1 s1 where m1: "sendMessage client (release_message p (now client s)) s = (r1, s1)"
    by (cases "sendMessage client (release_message p (now client s)) s")
  obtain r2 s2' where m2: "sendMessage client (release_message p (now client s1)) s1 = (r2, s2')"
    by (cases "sendMessage client (release_message p (now client s1)) s1")
  have c1: "releaseResources client p s
      = ((case r1 of Ok v \<Rightarrow> Inr (released p (now client s1)) | Err e \<Rightarrow> Inl e), s1,
         [(SendMessage (release_message p (now client s)), r1)])"
    using m1 by (simp add: releaseResources_def Let_def split: result.splits)
  have c2: "releaseResources client p s1
      = ((case r2 of Ok v \<Rightarrow> Inr (released p (now client s2')) | Err e \<Rightarrow> Inl e), s2',
         [(SendMessage (release_message p (now client s1)), r2)])"
    using m2 by (simp add: releaseResources_def Let_def split: result.splits)
  from a c1 c2 have "s2' = s2"
    "calls = [(SendMessage (release_message p (now client s)), r1),
              (SendMessage (release_message p (now client s1)), r2)]"
    "out1 = (case r1 of Ok v \<Rightarrow> Inr (released p (now client s1)) | Err e \<Rightarrow> Inl e)"
    "out2 = (case r2 of Ok v \<Rightarrow> Inr (released p (now client s2)) | Err e \<Rightarrow> Inl e)"
    by (auto simp: release_twice_def)
  with m1 m2 show ?thesis by blast
qed

lemma release_twice_run:
  "release_twice holding_broker params0 [JStr ''alloc_1'']
     = (Inr (released params0 ''t''), Inl ''unknown allocation'', [],
        [(SendMessage (release_message params0 ''t''), Ok JNull),
         (SendMessage (release_message params0 ''t''), Err ''unknown allocation'')])"
  by (simp add: release_twice_def releaseResources_def holding_broker_def Let_def
      release_message_def message_def payload_allocationId_def params0_def)

theorem release_twice_follows_client_witness:
  "release_twice holding_broker params0 [JStr ''alloc_1'']
     = (Inr (released params0 ''t''), Inl ''unknown allocation'', [],
        [(SendMessage (release_message params0 ''t''), Ok JNull),
         (SendMessage (release_message params0 ''t''), Err ''unknown allocation'')])
   \<and> (\<exists>r1 s1 r2.
         sendMessage holding_broker (release_message params0 (now holding_broker [JStr ''alloc_1''])) [JStr ''alloc_1''] = (r1, s1)
       \<and> sendMessage holding_broker (release_message params0 (now holding_broker s1)) s1 = (r2, [])
       \<and> Inl ''unknown allocation'' = (case r2 of Ok v \<Rightarrow> Inr (released params0 (now holding_broker [])) | Err e \<Rightarrow> Inl e))"
  using release_twice_follows_client[OF release_twice_run] release_twice_run by blast

text \<open>
  The claim C4 itself fails on the code: with a broker that rejects the release of an
  allocation it no longer holds, the first release succeeds and the second one throws.
\<close>

theorem release_twice_counterexample:
  "fst (release_twice holding_broker params0 [JStr ''alloc_1'']) = Inr (released params0 ''t'')
   \<and> fst (snd (release_twice holding_broker params0 [JStr ''alloc_1''])) = Inl ''unknown allocation''"
  by (simp add: release_twice_run)














subsection \<open>Agent node: the retry loop\<close>












text \<open>
  A negative budget is outside the claim; there the loop condition is false from the start:
  the action is not run, and nothing is pushed or thrown for the item.
\<close>

lemma negative_budget_skips_item:
  "maxRetryAttempts < 0 \<Longrightarrow>
   retry_loop attempt recovery cof maxRetryAttempts 0 (start s) = (None, start s)"
  by (simp add: retry_loop.simps[of attempt recovery cof maxRetryAttempts 0 "start s"])

subsection \<open>WebSocket authentication\<close>

text \<open>
  C10.  The WebSocket server accepts a connection if and only if the request has an
  Authorization header that starts with \<open>Bearer \<close>.  What follows the prefix is not
  looked at: every token is accepted, \<open>Bearer invalid-key\<close> among them, and a request
  without the header is refused.
\<close>

theorem verifyClient_bearer_prefix_only:
  "(verifyClient authorization \<longleftrightarrow> (\<exists>token. authorization = Some (''Bearer '' @ token)))
   \<and> verifyClient (Some (''Bearer '' @ token'))
   \<and> verifyClient (Some ''Bearer invalid-key'')
   \<and> \<not> verifyClient None"
proof -
  have a: "verifyClient authorization \<longleftrightarrow> (\<exists>token. authorization = Some (''Bearer '' @ token))"
    by (cases authorization) (auto simp: verifyClient_def startsWith_iff)
  have b: "verifyClient (Some (''Bearer '' @ token'))"
    by (simp add: verifyClient_def startsWith_def)
  have c: "verifyClient (Some ''Bearer invalid-key'')"
    by (simp add: verifyClient_def startsWith_def)
  have d: "\<not> verifyClient None"
    by (simp add: verifyClient_def)
  from a b c d show ?thesis by blast
qed

end
